theory Spec2Isabelle
  imports Complex_Main "HOL-Library.Word" "HOL-Library.Multiset" "HOL-Library.Product_Lexorder"
begin

unbundle bit_operations_syntax

section \<open>The data model of internal/gamepad/gamepad_darwin.go\<close>

text \<open>
  Go's \<^verbatim>\<open>int\<close> is 64 bits wide on every darwin target, and so is the platform's
  \<^verbatim>\<open>CFIndex\<close>: both are \<open>64 word\<close>, read as two's complement by \<open>sint\<close> and compared
  by the signed orders \<open><s\<close> and \<open>\<le>s\<close>; \<open>+\<close> and \<open>-\<close> wrap around as Go's do.
  The platform's \<^verbatim>\<open>uint32\<close> values (usage, usage page, vendor, product, version) are
  \<open>32 word\<close>, a \<^verbatim>\<open>byte\<close> is \<open>8 word\<close>. A native reference (\<^verbatim>\<open>IOHIDDeviceRef\<close>,
  \<^verbatim>\<open>IOHIDElementRef\<close>) is a number, 0 being the null reference. \<^verbatim>\<open>float64\<close>
  arithmetic is modelled by exact arithmetic on \<open>real\<close>.
\<close>

type_synonym go_int = "64 word"
type_synonym uint32 = "32 word"
type_synonym byte = "8 word"
type_synonym ref = nat

record element =
  native :: ref
  usage :: go_int
  index :: go_int
  minimum :: go_int
  maximum :: go_int

text \<open>
  Modelled from the spec: the hat constants \<^verbatim>\<open>hatCentered\<close>, \<^verbatim>\<open>hatUp\<close>, ... are
  declared in a file of the package that is not among the sources. The spec lists them
  as the nine results of \<^verbatim>\<open>hatState\<close>: "one of {Centered, Up, RightUp, Right,
  RightDown, Down, LeftDown, Left, LeftUp}". They are the nine values of a datatype.
\<close>

datatype hat =
  hatCentered | hatUp | hatRightUp | hatRight | hatRightDown
  | hatDown | hatLeftDown | hatLeft | hatLeftUp

subsection \<open>Go slices with their capacity\<close>

text \<open>
  The value buffers are slices that \<^verbatim>\<open>update\<close> reuses: a slice is its backing array
  from the slice's start up to its capacity, and its length. A nil slice has an empty
  backing array and length 0. An index or a slice bound out of range is a run-time
  panic, a value of the type \<open>panic\<close>.
\<close>

datatype panic = IndexOutOfRange | SliceBoundsOutOfRange

record 'a slice =
  backing :: "'a list"
  slice_len :: nat

definition nil_slice :: "'a slice" where
  "nil_slice = \<lparr>backing = [], slice_len = 0\<rparr>"

definition cap :: "'a slice \<Rightarrow> nat" where
  "cap s = length (backing s)"

text \<open>\<^verbatim>\<open>make([]T, n)\<close>: \<open>n\<close> cells holding the zero value \<open>z\<close> of the type.\<close>

definition make_slice :: "'a \<Rightarrow> nat \<Rightarrow> 'a slice" where
  "make_slice z n = \<lparr>backing = replicate n z, slice_len = n\<rparr>"

text \<open>\<^verbatim>\<open>s[:n]\<close> panics when \<open>n\<close> is above the capacity.\<close>

definition reslice :: "'a slice \<Rightarrow> nat \<Rightarrow> panic + 'a slice" where
  "reslice s n = (if n \<le> cap s then Inr (s\<lparr>slice_len := n\<rparr>) else Inl SliceBoundsOutOfRange)"

text \<open>\<^verbatim>\<open>s[i] = v\<close> and \<^verbatim>\<open>s[i]\<close> panic when \<open>i\<close> is not below the length.\<close>

definition slice_store :: "'a slice \<Rightarrow> nat \<Rightarrow> 'a \<Rightarrow> panic + 'a slice" where
  "slice_store s i v =
     (if i < slice_len s then Inr (s\<lparr>backing := (backing s)[i := v]\<rparr>) else Inl IndexOutOfRange)"

definition slice_load :: "'a slice \<Rightarrow> nat \<Rightarrow> panic + 'a" where
  "slice_load s i = (if i < slice_len s then Inr (backing s ! i) else Inl IndexOutOfRange)"

text \<open>What a slice holds: the first \<open>slice_len\<close> cells of its backing array.\<close>

definition contents :: "'a slice \<Rightarrow> 'a list" where
  "contents s = take (slice_len s) (backing s)"

text \<open>Every slice a Go program can build has its length within its capacity.\<close>

definition slice_ok :: "'a slice \<Rightarrow> bool" where
  "slice_ok s = (slice_len s \<le> cap s)"

subsection \<open>The native gamepad\<close>

record nativeGamepad =
  device :: ref
  axes :: "element list"
  buttons :: "element list"
  hats :: "element list"
  axisValues :: "real slice"
  buttonValues :: "bool slice"
  hatValues :: "hat slice"

text \<open>
  The platform's answer to \<^verbatim>\<open>IOHIDDeviceGetValue(device, element, &valueRef)\<close>:
  \<open>Some v\<close> when the call returns \<^verbatim>\<open>kIOReturnSuccess\<close> and
  \<^verbatim>\<open>IOHIDValueGetIntegerValue(valueRef)\<close> is \<open>v\<close>, \<open>None\<close> when the read fails.
\<close>

type_synonym hid_values = "ref \<Rightarrow> ref \<Rightarrow> go_int option"

definition present :: "'a nativeGamepad_scheme \<Rightarrow> bool" where
  "present g = (device g \<noteq> 0)"

definition elementValue :: "hid_values \<Rightarrow> 'a nativeGamepad_scheme \<Rightarrow> element \<Rightarrow> go_int" where
  "elementValue io g e =
     (if device g = 0 then 0
      else case io (device g) (native e) of
             Some v \<Rightarrow> v
           | None \<Rightarrow> 0)"

section \<open>The value sampler: update\<close>

text \<open>
  The three buffers are prepared the same way:
  \<^verbatim>\<open>if cap(vs) < n { vs = make([]T, n) }; vs = vs[:n]\<close>.
\<close>

definition grow :: "'a \<Rightarrow> nat \<Rightarrow> 'a slice \<Rightarrow> panic + 'a slice" where
  "grow z n vs = reslice (if cap vs < n then make_slice z n else vs) n"

text \<open>
  The body of \<^verbatim>\<open>for i, a := range g.axes\<close>, after \<open>raw\<close> is read. The loop variable
  \<open>a\<close> is a copy of \<^verbatim>\<open>g.axes[i]\<close>: the two assignments widen the copy, and the
  body returns it next to the value it stores in \<^verbatim>\<open>g.axisValues[i]\<close>.
\<close>

definition axis_body :: "element \<Rightarrow> go_int \<Rightarrow> element \<times> real" where
  "axis_body a0 raw =
     (let a1 = (if raw <s minimum a0 then a0\<lparr>minimum := raw\<rparr> else a0);
          a2 = (if maximum a1 <s raw then a1\<lparr>maximum := raw\<rparr> else a1);
          size = maximum a2 - minimum a2;
          val = (if size \<noteq> 0
                 then 2 * real_of_int (sint (raw - minimum a2)) / real_of_int (sint size) - 1
                 else 0)
      in (a2, val))"

definition hatStates :: "hat list" where
  "hatStates =
     [hatUp, hatRightUp, hatRight, hatRightDown, hatDown, hatLeftDown, hatLeft, hatLeftUp]"

text \<open>
  The body of the loop over the hats; the index \<^verbatim>\<open>hatStates[state]\<close> is read only
  where the guard has found it in range.
\<close>

definition hat_body :: "go_int \<Rightarrow> hat" where
  "hat_body state =
     (if state <s 0 \<or> word_of_nat (length hatStates) \<le>s state then hatCentered
      else hatStates ! nat (sint state))"

text \<open>
  \<^verbatim>\<open>for i, e := range es { vs[i] = body(e) }\<close>, from index \<open>i\<close> on. A store out of
  range stops the loop with its panic.
\<close>

fun range_store :: "('e \<Rightarrow> 'v) \<Rightarrow> 'e list \<Rightarrow> nat \<Rightarrow> 'v slice \<Rightarrow> panic + 'v slice" where
  "range_store body [] i vs = Inr vs"
| "range_store body (e # es) i vs =
     (case slice_store vs i (body e) of
        Inl p \<Rightarrow> Inl p
      | Inr vs' \<Rightarrow> range_store body es (Suc i) vs')"

text \<open>
  \<^verbatim>\<open>make([]int, n)\<close> fills the hat buffer with the integer 0; every cell below the
  length is overwritten before \<^verbatim>\<open>update\<close> returns, so the filler is never read.
\<close>

definition hat_zero :: hat where
  "hat_zero = hatCentered"

definition update :: "hid_values \<Rightarrow> 'a nativeGamepad_scheme \<Rightarrow> panic + 'a nativeGamepad_scheme" where
  "update io g =
     (case grow 0 (length (axes g)) (axisValues g) of Inl p \<Rightarrow> Inl p | Inr av \<Rightarrow>
      case grow False (length (buttons g)) (buttonValues g) of Inl p \<Rightarrow> Inl p | Inr bv \<Rightarrow>
      case grow hat_zero (length (hats g)) (hatValues g) of Inl p \<Rightarrow> Inl p | Inr hv \<Rightarrow>
      case range_store (\<lambda>a. snd (axis_body a (elementValue io g a))) (axes g) 0 av of
        Inl p \<Rightarrow> Inl p | Inr av' \<Rightarrow>
      case range_store (\<lambda>b. 0 <s elementValue io g b) (buttons g) 0 bv of
        Inl p \<Rightarrow> Inl p | Inr bv' \<Rightarrow>
      case range_store (\<lambda>h. hat_body (elementValue io g h)) (hats g) 0 hv of
        Inl p \<Rightarrow> Inl p | Inr hv' \<Rightarrow>
      Inr (g\<lparr>axisValues := av', buttonValues := bv', hatValues := hv'\<rparr>))"

text \<open>
  The buffer that \<^verbatim>\<open>update\<close> leaves for a bucket \<open>es\<close>, in closed form: the values of
  the loop's body, followed by what the backing array held beyond them.
\<close>

definition filled :: "'v \<Rightarrow> ('e \<Rightarrow> 'v) \<Rightarrow> 'e list \<Rightarrow> 'v slice \<Rightarrow> 'v slice" where
  "filled z body es vs =
     \<lparr>backing = map body es
        @ drop (length es) (if cap vs < length es then replicate (length es) z else backing vs),
      slice_len = length es\<rparr>"

text \<open>
  A read of the element \<open>e\<close> fails: the gamepad has no device, or the platform's call
  does not succeed.
\<close>

definition read_fails :: "hid_values \<Rightarrow> 'a nativeGamepad_scheme \<Rightarrow> element \<Rightarrow> bool" where
  "read_fails io g e = (device g = 0 \<or> io (device g) (native e) = None)"

subsection \<open>The accessors\<close>

definition axisNum :: "'a nativeGamepad_scheme \<Rightarrow> go_int" where
  "axisNum g = word_of_nat (slice_len (axisValues g))"

definition buttonNum :: "'a nativeGamepad_scheme \<Rightarrow> go_int" where
  "buttonNum g = word_of_nat (slice_len (buttonValues g))"

definition hatNum :: "'a nativeGamepad_scheme \<Rightarrow> go_int" where
  "hatNum g = word_of_nat (slice_len (hatValues g))"

definition axisValue :: "'a nativeGamepad_scheme \<Rightarrow> go_int \<Rightarrow> panic + real" where
  "axisValue g axis =
     (if axis <s 0 \<or> word_of_nat (slice_len (axisValues g)) \<le>s axis then Inr 0
      else slice_load (axisValues g) (nat (sint axis)))"

definition isButtonPressed :: "'a nativeGamepad_scheme \<Rightarrow> go_int \<Rightarrow> panic + bool" where
  "isButtonPressed g button =
     (if button <s 0 \<or> word_of_nat (slice_len (buttonValues g)) \<le>s button then Inr False
      else slice_load (buttonValues g) (nat (sint button)))"

definition hatState :: "'a nativeGamepad_scheme \<Rightarrow> go_int \<Rightarrow> panic + hat" where
  "hatState g hat =
     (if hat <s 0 \<or> word_of_nat (slice_len (hatValues g)) \<le>s hat then Inr hatCentered
      else slice_load (hatValues g) (nat (sint hat)))"

section \<open>What the platform tells about a device\<close>

text \<open>
  What the platform tells about one member of the array that
  \<^verbatim>\<open>IOHIDDeviceCopyMatchingElements\<close> returns: the reference itself, whether its
  \<^verbatim>\<open>CFGetTypeID\<close> is \<^verbatim>\<open>IOHIDElementGetTypeID()\<close>, and the results of
  \<^verbatim>\<open>IOHIDElementGetType\<close>, \<^verbatim>\<open>GetUsage\<close>, \<^verbatim>\<open>GetUsagePage\<close>, \<^verbatim>\<open>GetLogicalMin\<close>
  and \<^verbatim>\<open>GetLogicalMax\<close>.
\<close>

record hid_element =
  ElementRef :: ref
  IsElement :: bool
  ElementGetType :: uint32
  ElementGetUsage :: uint32
  ElementGetUsagePage :: uint32
  ElementGetLogicalMin :: go_int
  ElementGetLogicalMax :: go_int

text \<open>
  What the platform answers about the device of an attach notification: the property
  \<^verbatim>\<open>kIOHIDProductKey\<close> as the C string that \<^verbatim>\<open>CFStringGetCString\<close> leaves in the
  buffer, the three numeric properties as \<^verbatim>\<open>CFNumberGetValue\<close> stores them, each \<open>None\<close>
  when \<^verbatim>\<open>IOHIDDeviceGetProperty\<close> returns null, and the array of its elements.
\<close>

record hid_device =
  ProductKey :: "string option"
  VendorIDKey :: "uint32 option"
  ProductIDKey :: "uint32 option"
  VersionNumberKey :: "uint32 option"
  MatchingElements :: "hid_element list"

section \<open>The identity generator\<close>

text \<open>
  \<^verbatim>\<open>fmt.Sprintf\<close> belongs to Go's library. Its verb \<^verbatim>\<open>%02x\<close> prints a byte as two
  lower-case hexadecimal digits, the high one first, padded with a zero.
\<close>

definition hex_digit :: "nat \<Rightarrow> char" where
  "hex_digit n = ''0123456789abcdef'' ! n"

definition fmt_02x :: "byte \<Rightarrow> string" where
  "fmt_02x b = [hex_digit (unat b div 16), hex_digit (unat b mod 16)]"

text \<open>
  The identifier \<^verbatim>\<open>sdlID\<close> as \<^verbatim>\<open>ebitenGamepadMatchingCallback\<close> computes it from the
  name and the three numbers. \<^verbatim>\<open>byte(v)\<close> keeps the low eight bits of \<open>v\<close>, and
  \<^verbatim>\<open>[]byte(name)\<close> is the string's bytes. After the padding the slice has at least
  twelve bytes, so the twelve indices are in range.
\<close>

definition sdlID_of :: "string \<Rightarrow> uint32 \<Rightarrow> uint32 \<Rightarrow> uint32 \<Rightarrow> string" where
  "sdlID_of name vendor product version =
     (if vendor \<noteq> 0 \<and> product \<noteq> 0 then
        ''03000000''
        @ fmt_02x (ucast vendor) @ fmt_02x (ucast (drop_bit 8 vendor)) @ ''0000''
        @ fmt_02x (ucast product) @ fmt_02x (ucast (drop_bit 8 product)) @ ''0000''
        @ fmt_02x (ucast version) @ fmt_02x (ucast (drop_bit 8 version)) @ ''0000''
      else
        let bs0 = map of_char name :: byte list;
            bs = (if length bs0 < 12 then bs0 @ replicate (12 - length bs0) 0 else bs0)
        in ''05000000''
           @ fmt_02x (bs ! 0) @ fmt_02x (bs ! 1) @ fmt_02x (bs ! 2) @ fmt_02x (bs ! 3)
           @ fmt_02x (bs ! 4) @ fmt_02x (bs ! 5) @ fmt_02x (bs ! 6) @ fmt_02x (bs ! 7)
           @ fmt_02x (bs ! 8) @ fmt_02x (bs ! 9) @ fmt_02x (bs ! 10) @ fmt_02x (bs ! 11))"

text \<open>
  The identifier as the spec words it, to compare \<open>sdlID_of\<close> with: a byte in
  hexadecimal is its high digit and its low digit; a number "as a little-endian 16-bit
  value" is its low byte followed by its high byte; and the name-derived identifier is
  the marker followed by "the first 12 bytes of the name (zero-padded if shorter)",
  each in hexadecimal.
\<close>

definition hex_byte :: "nat \<Rightarrow> string" where
  "hex_byte n = [hex_digit (n div 16 mod 16), hex_digit (n mod 16)]"

definition le16_hex :: "uint32 \<Rightarrow> string" where
  "le16_hex v = hex_byte (unat v mod 256) @ hex_byte (unat v div 256 mod 256)"

definition name_id :: "string \<Rightarrow> string" where
  "name_id nm =
     ''05000000''
     @ concat (map (\<lambda>c. hex_byte (of_char c))
         (take 12 (nm @ replicate (12 - length nm) (CHR 0x00))))"

text \<open>
  The name and the identifier that \<^verbatim>\<open>ebitenGamepadMatchingCallback\<close> computes for the
  device before it reads the elements: each property that is missing keeps the
  variable's initial value, \<^verbatim>\<open>"Unknown"\<close> or 0.
\<close>

definition device_identity :: "hid_device \<Rightarrow> string \<times> string" where
  "device_identity props =
     (let nm = (case ProductKey props of Some s \<Rightarrow> s | None \<Rightarrow> ''Unknown'');
          vendor = (case VendorIDKey props of Some v \<Rightarrow> v | None \<Rightarrow> 0);
          product = (case ProductIDKey props of Some v \<Rightarrow> v | None \<Rightarrow> 0);
          version = (case VersionNumberKey props of Some v \<Rightarrow> v | None \<Rightarrow> 0)
      in (nm, sdlID_of nm vendor product version))"

section \<open>The element classifier\<close>

text \<open>
  The constants of the platform's headers (\<^verbatim>\<open>IOHIDKeys.h\<close>, \<^verbatim>\<open>IOHIDUsageTables.h\<close>),
  with the numbers the USB HID usage tables give them. The headers are not part of
  the repository, and no theorem below depends on the numbers.
\<close>

definition kIOHIDElementTypeInput_Misc :: uint32 where "kIOHIDElementTypeInput_Misc = 1"
definition kIOHIDElementTypeInput_Button :: uint32 where "kIOHIDElementTypeInput_Button = 2"
definition kIOHIDElementTypeInput_Axis :: uint32 where "kIOHIDElementTypeInput_Axis = 3"

definition kHIDPage_GenericDesktop :: uint32 where "kHIDPage_GenericDesktop = 0x01"
definition kHIDPage_Simulation :: uint32 where "kHIDPage_Simulation = 0x02"
definition kHIDPage_Button :: uint32 where "kHIDPage_Button = 0x09"
definition kHIDPage_Consumer :: uint32 where "kHIDPage_Consumer = 0x0C"

definition kHIDUsage_GD_X :: uint32 where "kHIDUsage_GD_X = 0x30"
definition kHIDUsage_GD_Y :: uint32 where "kHIDUsage_GD_Y = 0x31"
definition kHIDUsage_GD_Z :: uint32 where "kHIDUsage_GD_Z = 0x32"
definition kHIDUsage_GD_Rx :: uint32 where "kHIDUsage_GD_Rx = 0x33"
definition kHIDUsage_GD_Ry :: uint32 where "kHIDUsage_GD_Ry = 0x34"
definition kHIDUsage_GD_Rz :: uint32 where "kHIDUsage_GD_Rz = 0x35"
definition kHIDUsage_GD_Slider :: uint32 where "kHIDUsage_GD_Slider = 0x36"
definition kHIDUsage_GD_Dial :: uint32 where "kHIDUsage_GD_Dial = 0x37"
definition kHIDUsage_GD_Wheel :: uint32 where "kHIDUsage_GD_Wheel = 0x38"
definition kHIDUsage_GD_Hatswitch :: uint32 where "kHIDUsage_GD_Hatswitch = 0x39"
definition kHIDUsage_GD_Start :: uint32 where "kHIDUsage_GD_Start = 0x3D"
definition kHIDUsage_GD_Select :: uint32 where "kHIDUsage_GD_Select = 0x3E"
definition kHIDUsage_GD_SystemMainMenu :: uint32 where "kHIDUsage_GD_SystemMainMenu = 0x85"
definition kHIDUsage_GD_DPadUp :: uint32 where "kHIDUsage_GD_DPadUp = 0x90"
definition kHIDUsage_GD_DPadDown :: uint32 where "kHIDUsage_GD_DPadDown = 0x91"
definition kHIDUsage_GD_DPadRight :: uint32 where "kHIDUsage_GD_DPadRight = 0x92"
definition kHIDUsage_GD_DPadLeft :: uint32 where "kHIDUsage_GD_DPadLeft = 0x93"

definition kHIDUsage_Sim_Rudder :: uint32 where "kHIDUsage_Sim_Rudder = 0xBA"
definition kHIDUsage_Sim_Throttle :: uint32 where "kHIDUsage_Sim_Throttle = 0xBB"
definition kHIDUsage_Sim_Accelerator :: uint32 where "kHIDUsage_Sim_Accelerator = 0xC4"
definition kHIDUsage_Sim_Brake :: uint32 where "kHIDUsage_Sim_Brake = 0xC5"
definition kHIDUsage_Sim_Steering :: uint32 where "kHIDUsage_Sim_Steering = 0xC8"

text \<open>
  The struct literal that every branch of the switch appends, \<open>k\<close> being the length of
  the bucket it is appended to. \<^verbatim>\<open>int(usage)\<close> extends the unsigned 32-bit usage.
\<close>

definition new_element :: "hid_element \<Rightarrow> nat \<Rightarrow> element" where
  "new_element n k =
     \<lparr>native = ElementRef n,
      usage = ucast (ElementGetUsage n),
      index = word_of_nat k,
      minimum = ElementGetLogicalMin n,
      maximum = ElementGetLogicalMax n\<rparr>"

definition append_axis :: "hid_element \<Rightarrow> 'a nativeGamepad_scheme \<Rightarrow> 'a nativeGamepad_scheme" where
  "append_axis n g = g\<lparr>axes := axes g @ [new_element n (length (axes g))]\<rparr>"

definition append_hat :: "hid_element \<Rightarrow> 'a nativeGamepad_scheme \<Rightarrow> 'a nativeGamepad_scheme" where
  "append_hat n g = g\<lparr>hats := hats g @ [new_element n (length (hats g))]\<rparr>"

definition append_button :: "hid_element \<Rightarrow> 'a nativeGamepad_scheme \<Rightarrow> 'a nativeGamepad_scheme" where
  "append_button n g = g\<lparr>buttons := buttons g @ [new_element n (length (buttons g))]\<rparr>"

text \<open>One round of the loop over the elements: the two \<^verbatim>\<open>continue\<close>s, then the switch.\<close>

definition classify :: "hid_element \<Rightarrow> 'a nativeGamepad_scheme \<Rightarrow> 'a nativeGamepad_scheme" where
  "classify n g =
     (if \<not> IsElement n then g
      else if ElementGetType n \<noteq> kIOHIDElementTypeInput_Axis
            \<and> ElementGetType n \<noteq> kIOHIDElementTypeInput_Button
            \<and> ElementGetType n \<noteq> kIOHIDElementTypeInput_Misc then g
      else if ElementGetUsagePage n = kHIDPage_GenericDesktop then
        (if ElementGetUsage n \<in> set [kHIDUsage_GD_X, kHIDUsage_GD_Y, kHIDUsage_GD_Z,
               kHIDUsage_GD_Rx, kHIDUsage_GD_Ry, kHIDUsage_GD_Rz,
               kHIDUsage_GD_Slider, kHIDUsage_GD_Dial, kHIDUsage_GD_Wheel]
         then append_axis n g
         else if ElementGetUsage n = kHIDUsage_GD_Hatswitch then append_hat n g
         else if ElementGetUsage n \<in> set [kHIDUsage_GD_DPadUp, kHIDUsage_GD_DPadRight,
               kHIDUsage_GD_DPadDown, kHIDUsage_GD_DPadLeft,
               kHIDUsage_GD_SystemMainMenu, kHIDUsage_GD_Select, kHIDUsage_GD_Start]
         then append_button n g
         else g)
      else if ElementGetUsagePage n = kHIDPage_Simulation then
        (if ElementGetUsage n \<in> set [kHIDUsage_Sim_Accelerator, kHIDUsage_Sim_Brake,
               kHIDUsage_Sim_Throttle, kHIDUsage_Sim_Rudder, kHIDUsage_Sim_Steering]
         then append_axis n g
         else g)
      else if ElementGetUsagePage n = kHIDPage_Button \<or> ElementGetUsagePage n = kHIDPage_Consumer
      then append_button n g
      else g)"

definition classify_all :: "hid_element list \<Rightarrow> 'a nativeGamepad_scheme \<Rightarrow> 'a nativeGamepad_scheme" where
  "classify_all ns g = fold classify ns g"

text \<open>\<^verbatim>\<open>elements.Less\<close>, on the two elements at the indices it is given.\<close>

definition elements_Less :: "element \<Rightarrow> element \<Rightarrow> bool" where
  "elements_Less a b =
     (if usage a \<noteq> usage b then usage a <s usage b
      else if index a \<noteq> index b then index a <s index b
      else False)"

text \<open>The pair that \<^verbatim>\<open>Less\<close> compares lexicographically, as integers.\<close>

definition elem_key :: "element \<Rightarrow> int \<times> int" where
  "elem_key e = (sint (usage e), sint (index e))"

text \<open>
  \<^verbatim>\<open>sort.Stable\<close> belongs to Go's library; its contract is that it "sorts data in
  ascending order as determined by the Less method, while keeping the original order
  of equal elements". The model is the stable insertion sort: each element is put
  before the first element of the sorted rest that is not less than it.
\<close>

fun stable_insert :: "('a \<Rightarrow> 'a \<Rightarrow> bool) \<Rightarrow> 'a \<Rightarrow> 'a list \<Rightarrow> 'a list" where
  "stable_insert lt x [] = [x]"
| "stable_insert lt x (y # ys) =
     (if lt y x then y # stable_insert lt x ys else x # y # ys)"

definition sort_Stable :: "('a \<Rightarrow> 'a \<Rightarrow> bool) \<Rightarrow> 'a list \<Rightarrow> 'a list" where
  "sort_Stable lt xs = foldr (stable_insert lt) xs []"

definition sort_buckets :: "'a nativeGamepad_scheme \<Rightarrow> 'a nativeGamepad_scheme" where
  "sort_buckets g =
     g\<lparr>axes := sort_Stable elements_Less (axes g),
       buttons := sort_Stable elements_Less (buttons g),
       hats := sort_Stable elements_Less (hats g)\<rparr>"

text \<open>
  The elements of a bucket carry their positions as indices: what appending each element
  with the bucket's length as its index leaves, before the bucket is sorted.
\<close>

definition indexed :: "element list \<Rightarrow> bool" where
  "indexed es = (map index es = map word_of_nat [0..<length es])"

section \<open>The hot-plug callbacks and the registry\<close>

text \<open>
  Modelled from the spec: the type \<^verbatim>\<open>Gamepad\<close> and the registry \<^verbatim>\<open>theGamepads\<close> with
  its methods \<^verbatim>\<open>find\<close>, \<^verbatim>\<open>add\<close> and \<^verbatim>\<open>remove\<close> are declared in a file of the package
  that is not among the sources. The spec (section 6): "\<^verbatim>\<open>add(name, identifier) -> handle\<close>:
  registers a new logical gamepad; returns a handle the core attaches its native state
  to", "\<^verbatim>\<open>remove(predicate)\<close>: removes the registry entry matching predicate",
  "\<^verbatim>\<open>find(predicate) -> handle | none\<close>: used for attach-dedup". A \<^verbatim>\<open>Gamepad\<close> is a
  native gamepad with a name and an identifier, the registry is the list of its
  entries, and a handle is a position in the list. A new entry has the zero native
  state: a null device, empty buckets and nil buffers.
\<close>

record Gamepad = nativeGamepad +
  name :: string
  sdlID :: string

type_synonym gamepads = "Gamepad list"

definition gamepads_find :: "(Gamepad \<Rightarrow> bool) \<Rightarrow> gamepads \<Rightarrow> nat option" where
  "gamepads_find cond gs =
     (case filter (\<lambda>k. cond (gs ! k)) [0..<length gs] of [] \<Rightarrow> None | k # _ \<Rightarrow> Some k)"

definition new_Gamepad :: "string \<Rightarrow> string \<Rightarrow> Gamepad" where
  "new_Gamepad nm ident =
     \<lparr>device = 0, axes = [], buttons = [], hats = [],
      axisValues = nil_slice, buttonValues = nil_slice, hatValues = nil_slice,
      name = nm, sdlID = ident\<rparr>"

definition gamepads_add :: "string \<Rightarrow> string \<Rightarrow> gamepads \<Rightarrow> nat \<times> gamepads" where
  "gamepads_add nm ident gs = (length gs, gs @ [new_Gamepad nm ident])"

definition gamepads_remove :: "(Gamepad \<Rightarrow> bool) \<Rightarrow> gamepads \<Rightarrow> gamepads" where
  "gamepads_remove cond gs = filter (\<lambda>g. \<not> cond g) gs"

text \<open>
  The attach callback: nothing happens for a device the registry knows; otherwise the
  new entry gets the device, the classified elements and the sorted buckets.
\<close>

definition ebitenGamepadMatchingCallback ::
  "gamepads \<Rightarrow> ref \<Rightarrow> hid_device \<Rightarrow> gamepads" where
  "ebitenGamepadMatchingCallback theGamepads d props =
     (if gamepads_find (\<lambda>g. device g = d) theGamepads \<noteq> None then theGamepads
      else
        let (nm, ident) = device_identity props;
            (k, gs) = gamepads_add nm ident theGamepads;
            g0 = (gs ! k)\<lparr>device := d\<rparr>;
            g1 = classify_all (MatchingElements props) g0;
            g2 = sort_buckets g1
        in gs[k := g2])"

definition ebitenGamepadRemovalCallback :: "gamepads \<Rightarrow> ref \<Rightarrow> gamepads" where
  "ebitenGamepadRemovalCallback theGamepads d =
     gamepads_remove (\<lambda>g. device g = d) theGamepads"

text \<open>
  The entry that the attach callback leaves in the registry for a device it does not
  know, in closed form.
\<close>

definition attached :: "ref \<Rightarrow> hid_device \<Rightarrow> Gamepad" where
  "attached d props =
     sort_buckets (classify_all (MatchingElements props)
       ((new_Gamepad (fst (device_identity props)) (snd (device_identity props)))\<lparr>device := d\<rparr>))"

section \<open>Example devices\<close>

text \<open>
  A gamepad with one X axis of logical range 0 to 255, one button and one hat switch,
  attached as device 1 and not yet sampled.
\<close>

definition stick :: element where
  "stick = \<lparr>native = 11, usage = 0x30, index = 0, minimum = 0, maximum = 255\<rparr>"

definition pad :: nativeGamepad where
  "pad = \<lparr>device = 1, axes = [stick],
     buttons = [\<lparr>native = 12, usage = 1, index = 0, minimum = 0, maximum = 1\<rparr>],
     hats = [\<lparr>native = 13, usage = 0x39, index = 0, minimum = 0, maximum = 7\<rparr>],
     axisValues = nil_slice, buttonValues = nil_slice, hatValues = nil_slice\<rparr>"

text \<open>A native gamepad as the registry creates it, with device 1 and nothing else.\<close>

definition blank :: nativeGamepad where
  "blank = \<lparr>device = 1, axes = [], buttons = [], hats = [],
     axisValues = nil_slice, buttonValues = nil_slice, hatValues = nil_slice\<rparr>"

text \<open>
  The elements of an example device, in the order the platform lists them: a Y axis, a
  slider, an X axis, a second slider, a hat switch, the buttons 2 and 1, an element
  that is a collection and a member that is not an element. \<open>el\<close> is the element
  that the classifier makes of an input with the logical range 0 to 255.
\<close>

definition input :: "ref \<Rightarrow> uint32 \<Rightarrow> uint32 \<Rightarrow> hid_element" where
  "input r page us =
     \<lparr>ElementRef = r, IsElement = True, ElementGetType = kIOHIDElementTypeInput_Misc,
      ElementGetUsage = us, ElementGetUsagePage = page,
      ElementGetLogicalMin = 0, ElementGetLogicalMax = 255\<rparr>"

definition example_elements :: "hid_element list" where
  "example_elements =
     [input 21 kHIDPage_GenericDesktop kHIDUsage_GD_Y,
      input 22 kHIDPage_GenericDesktop kHIDUsage_GD_Slider,
      input 23 kHIDPage_GenericDesktop kHIDUsage_GD_X,
      input 24 kHIDPage_GenericDesktop kHIDUsage_GD_Slider,
      input 25 kHIDPage_GenericDesktop kHIDUsage_GD_Hatswitch,
      input 26 kHIDPage_Button 2,
      input 27 kHIDPage_Button 1,
      (input 28 kHIDPage_GenericDesktop kHIDUsage_GD_X)\<lparr>ElementGetType := 513\<rparr>,
      (input 29 kHIDPage_GenericDesktop kHIDUsage_GD_X)\<lparr>IsElement := False\<rparr>]"

definition el :: "ref \<Rightarrow> go_int \<Rightarrow> go_int \<Rightarrow> element" where
  "el r us i = \<lparr>native = r, usage = us, index = i, minimum = 0, maximum = 255\<rparr>"

definition example_device :: hid_device where
  "example_device =
     \<lparr>ProductKey = Some ''Pad'', VendorIDKey = Some 0x045E, ProductIDKey = Some 0x028E,
      VersionNumberKey = Some 0x0114, MatchingElements = example_elements\<rparr>"

section \<open>Signed 64-bit arithmetic\<close>

lemma sint_of_nat_le_nat: "sint (word_of_nat n :: go_int) \<le> int n"
proof -
  have "(0::int) \<le> uint (word_of_nat n :: go_int)" by simp
  moreover have "- (2 ^ 63) \<le> (0::int)" by simp
  ultimately have "- (2 ^ 63) \<le> uint (word_of_nat n :: go_int)" by (rule order_trans [rotated])
  then have "sint (word_of_nat n :: go_int) \<le> uint (word_of_nat n :: go_int)"
    by (simp add: sint_uint signed_take_bit_int_less_eq_self_iff)
  also have "\<dots> \<le> int n"
    by (simp add: unsigned_of_nat take_bit_nat_less_eq_self)
  finally show ?thesis .
qed

lemma sint_diff_no_overflow:
  "- (2 ^ 63) \<le> sint a - sint b \<Longrightarrow> sint a - sint b < 2 ^ 63 \<Longrightarrow>
   sint (a - b :: go_int) = sint a - sint b"
  by (simp add: sint_word_diff signed_take_bit_int_eq_self)

lemma guard_in_range:
  "\<not> (i <s 0 \<or> (word_of_nat n :: go_int) \<le>s i) \<Longrightarrow> nat (sint i) < n"
  using sint_of_nat_le_nat [of n] by (simp add: word_sless_alt word_sle_eq) linarith

section \<open>update never panics, and what it leaves\<close>

lemma grow_Inr:
  "grow z n vs = Inr ((if cap vs < n then make_slice z n else vs)\<lparr>slice_len := n\<rparr>)"
  by (simp add: grow_def reslice_def cap_def make_slice_def)

lemma range_store_Inr:
  "i + length es \<le> slice_len vs \<Longrightarrow> slice_len vs \<le> length (backing vs) \<Longrightarrow>
   range_store body es i vs =
     Inr (vs\<lparr>backing := take i (backing vs) @ map body es @ drop (i + length es) (backing vs)\<rparr>)"
proof (induction es arbitrary: i vs)
  case Nil
  then show ?case by simp
next
  case (Cons e es)
  let ?vs = "vs\<lparr>backing := (backing vs)[i := body e]\<rparr>"
  have st: "slice_store vs i (body e) = Inr ?vs"
    using Cons.prems by (simp add: slice_store_def)
  have "range_store body es (Suc i) ?vs =
     Inr (?vs\<lparr>backing := take (Suc i) (backing ?vs) @ map body es
                  @ drop (Suc i + length es) (backing ?vs)\<rparr>)"
    using Cons.prems by (intro Cons.IH) simp_all
  moreover have "take (Suc i) ((backing vs)[i := body e]) = take i (backing vs) @ [body e]"
    using Cons.prems by (simp add: take_Suc_conv_app_nth)
  ultimately show ?case using st by simp
qed

lemma grow_then_store:
  "grow z (length es) vs = Inr s \<Longrightarrow> range_store body es 0 s = Inr (filled z body es vs)"
  by (auto simp: grow_Inr range_store_Inr filled_def make_slice_def cap_def)

lemma update_Inr:
  "update io g = Inr (g\<lparr>
      axisValues := filled 0 (\<lambda>a. snd (axis_body a (elementValue io g a))) (axes g) (axisValues g),
      buttonValues := filled False (\<lambda>b. 0 <s elementValue io g b) (buttons g) (buttonValues g),
      hatValues := filled hat_zero (\<lambda>h. hat_body (elementValue io g h)) (hats g) (hatValues g)\<rparr>)"
  unfolding update_def
  by (simp add: grow_Inr grow_then_store [OF grow_Inr])

lemma update_frame:
  "\<exists>g'. update io g = Inr g' \<and> axes g' = axes g \<and> buttons g' = buttons g \<and>
     hats g' = hats g \<and> device g' = device g"
  by (simp add: update_Inr)

lemma slice_load_filled:
  "k < length es \<Longrightarrow> slice_load (filled z body es vs) k = Inr (body (es ! k))"
  by (simp add: slice_load_def filled_def nth_append)

lemma contents_filled: "contents (filled z body es vs) = map body es"
  by (simp add: contents_def filled_def)

lemma slice_ok_filled: "slice_ok (filled z body es vs)"
  by (simp add: slice_ok_def filled_def cap_def)

section \<open>The axes\<close>

lemma axis_body_fst:
  "minimum (fst (axis_body a raw)) = (if raw <s minimum a then raw else minimum a)"
  "maximum (fst (axis_body a raw)) = (if maximum a <s raw then raw else maximum a)"
  by (simp_all add: axis_body_def Let_def)

lemma axis_body_snd:
  "snd (axis_body a raw) =
     (let a' = fst (axis_body a raw); size = maximum a' - minimum a'
      in if size \<noteq> 0
         then 2 * real_of_int (sint (raw - minimum a')) / real_of_int (sint size) - 1
         else 0)"
  by (simp add: axis_body_def Let_def)

lemma axis_body_encloses:
  "sint (minimum (fst (axis_body a raw))) \<le> sint raw"
  "sint raw \<le> sint (maximum (fst (axis_body a raw)))"
  by (simp_all add: axis_body_fst word_sless_alt)

lemma normalise_range:
  fixes x s :: int
  assumes "0 \<le> x" "x \<le> s" "0 < s"
  shows "- 1 \<le> 2 * real_of_int x / real_of_int s - 1
    \<and> 2 * real_of_int x / real_of_int s - 1 \<le> 1"
  using assms by (simp add: field_simps)

lemma axis_body_range:
  assumes "sint (maximum (fst (axis_body a raw))) - sint (minimum (fst (axis_body a raw))) < 2 ^ 63"
  shows "- 1 \<le> snd (axis_body a raw) \<and> snd (axis_body a raw) \<le> 1"
proof -
  let ?lo = "minimum (fst (axis_body a raw))" and ?hi = "maximum (fst (axis_body a raw))"
  note enc = axis_body_encloses [where a = a and raw = raw]
  have lo: "- (2 ^ 63) \<le> sint raw - sint ?lo" and hi: "- (2 ^ 63) \<le> sint ?hi - sint ?lo"
    using enc by simp_all
  have "sint raw - sint ?lo < 2 ^ 63" using enc assms by linarith
  then have x: "sint (raw - ?lo) = sint raw - sint ?lo"
    using lo by (intro sint_diff_no_overflow)
  have s: "sint (?hi - ?lo) = sint ?hi - sint ?lo"
    using hi assms by (intro sint_diff_no_overflow)
  show ?thesis
  proof (cases "?hi - ?lo = 0")
    case True
    then show ?thesis by (simp add: axis_body_snd Let_def)
  next
    case False
    then have "sint (?hi - ?lo) \<noteq> 0" by (simp add: signed_eq_0_iff)
    then have "0 < sint (?hi - ?lo)" using s enc by linarith
    moreover have "0 \<le> sint (raw - ?lo)" "sint (raw - ?lo) \<le> sint (?hi - ?lo)"
      using x s enc by simp_all
    ultimately show ?thesis
      using False normalise_range [of "sint (raw - ?lo)" "sint (?hi - ?lo)"]
      by (simp add: axis_body_snd Let_def)
  qed
qed

text \<open>
  A reading that widens the copy's range is normalised to an end of it, -1 or 1, whatever
  the width. A reading inside the stored range needs the width of that range to fit the
  64-bit integer.
\<close>

lemma axis_body_range_stored:
  assumes "sint (maximum a) - sint (minimum a) < 2 ^ 63"
  shows "- 1 \<le> snd (axis_body a raw) \<and> snd (axis_body a raw) \<le> 1"
proof -
  consider (low) "raw <s minimum a"
    | (high) "\<not> raw <s minimum a" "maximum a <s raw"
    | (inside) "\<not> raw <s minimum a" "\<not> maximum a <s raw"
    by blast
  then show ?thesis
  proof cases
    case low
    then show ?thesis by (simp add: axis_body_def Let_def)
  next
    case high
    then show ?thesis by (simp add: axis_body_def Let_def signed_eq_0_iff)
  next
    case inside
    then have "fst (axis_body a raw) = a" by (simp add: axis_body_def Let_def)
    then show ?thesis using assms axis_body_range [of a raw] by simp
  qed
qed

text \<open>
  The logical bounds of a HID report descriptor have at most 32 bits. For a range as
  wide as the whole \<^verbatim>\<open>CFIndex\<close> type the subtraction wraps around, and the value is
  far outside [-1, 1].
\<close>

lemma axis_body_overflow:
  "snd (axis_body (stick\<lparr>minimum := - (2 ^ 63), maximum := 2 ^ 63 - 1\<rparr>) 0) = 2 ^ 64 - 1"
  by (simp add: axis_body_def Let_def stick_def word_sless_alt)

text \<open>
  Claim C1 says that the calibration bounds persist across polls: a raw reading below
  the stored minimum lowers the stored minimum to that reading, and one above the
  stored maximum raises the stored maximum. The code widens the loop variable, which
  is a copy of the element, and never writes it back: \<^verbatim>\<open>update\<close> returns every
  gamepad with the axes it was given. On the example gamepad a reading of -10 lowers
  the copy's minimum to -10 and gives the value -1, and the stored bounds are 0 and
  255 as before.
\<close>

theorem update_discards_widened_bounds:
  "(\<exists>g'. update io g = Inr g' \<and> axes g' = axes g) \<and>
   minimum (fst (axis_body stick (- 10))) = - 10 \<and>
   (\<exists>g'. update (\<lambda>d e. Some (- 10)) pad = Inr g' \<and>
      map minimum (axes g') = [0] \<and> map maximum (axes g') = [255] \<and>
      slice_load (axisValues g') 0 = Inr (- 1))"
  by (simp add: update_Inr slice_load_filled pad_def stick_def axis_body_def Let_def
      elementValue_def word_sless_alt)

text \<open>
  Claim C2 says that the normalised value of every axis lies in [-1, 1] and is 0.0
  exactly when the width of the calibrated range, after the widening of that poll, is 0.
  The second half fails: a reading in the middle of a range of non-zero width is
  normalised to 0.0 too. With the bounds 0 and 2 and the reading 1, \<^verbatim>\<open>update\<close> stores
  0 while the width is 2.
\<close>

theorem update_axis_zero_at_midpoint:
  "\<exists>g'. update (\<lambda>d e. Some 1) (pad\<lparr>axes := [stick\<lparr>maximum := 2\<rparr>]\<rparr>) = Inr g' \<and>
     slice_load (axisValues g') 0 = Inr 0 \<and>
     maximum (fst (axis_body (stick\<lparr>maximum := 2\<rparr>) 1))
       - minimum (fst (axis_body (stick\<lparr>maximum := 2\<rparr>) 1)) = 2"
  by (simp add: update_Inr slice_load_filled pad_def stick_def axis_body_def Let_def
      elementValue_def word_sless_alt)

text \<open>
  Claim C2 as amended: for the axis at position \<open>k\<close>, whose stored logical range has a
  width that fits the 64-bit integer, and for every raw reading, let \<open>a'\<close> be the copy
  of the element with the bounds widened by this poll's reading and \<open>v\<close> the value
  computed from it. Then \<^verbatim>\<open>update\<close> returns, the value it stores at \<open>k\<close> is \<open>v\<close>, \<open>v\<close>
  lies in [-1, 1], and \<open>v\<close> is 0 when the width \<open>maximum a' - minimum a'\<close> is 0 (the
  converse does not hold). \<^verbatim>\<open>float64\<close> arithmetic is exact arithmetic on the reals here.
\<close>

theorem update_axis_value_range:
  assumes "k < length (axes g)"
    and "sint (maximum (axes g ! k)) - sint (minimum (axes g ! k)) < 2 ^ 63"
    and "axis_body (axes g ! k) (elementValue io g (axes g ! k)) = (a', v)"
  shows "\<exists>g'. update io g = Inr g' \<and> slice_load (axisValues g') k = Inr v \<and>
           - 1 \<le> v \<and> v \<le> 1 \<and> (maximum a' - minimum a' = 0 \<longrightarrow> v = 0)"
proof -
  have "- 1 \<le> v \<and> v \<le> 1"
    using assms(2,3) axis_body_range_stored [of "axes g ! k" "elementValue io g (axes g ! k)"]
    by simp
  moreover have "maximum a' - minimum a' = 0 \<longrightarrow> v = 0"
    using assms(3) axis_body_snd [of "axes g ! k" "elementValue io g (axes g ! k)"]
    by (simp add: Let_def)
  ultimately show ?thesis
    using assms(1,3) by (simp add: update_Inr slice_load_filled)
qed

text \<open>
  Witness for C2 as amended: the example gamepad's axis of range 0 to 255 reading 128
  gives 2 * 128 / 255 - 1 = 1 / 255; reading 300, above its range, it gives 1; and an
  axis whose bounds are both 255, reading 255, has width 0 and gives 0.
\<close>

theorem update_axis_value_range_witness:
  "(\<exists>g'. update (\<lambda>d e. Some 128) pad = Inr g' \<and>
      slice_load (axisValues g') 0 = Inr (1 / 255)) \<and>
   (\<exists>g'. update (\<lambda>d e. Some 300) pad = Inr g' \<and>
      slice_load (axisValues g') 0 = Inr 1) \<and>
   (\<exists>g'. update (\<lambda>d e. Some 255) (pad\<lparr>axes := [stick\<lparr>minimum := 255\<rparr>]\<rparr>) = Inr g' \<and>
      slice_load (axisValues g') 0 = Inr 0)"
  using update_axis_value_range [of 0 pad "\<lambda>d e. Some 128" stick "1 / 255"]
    update_axis_value_range [of 0 pad "\<lambda>d e. Some 300" "stick\<lparr>maximum := 300\<rparr>" 1]
    update_axis_value_range [of 0 "pad\<lparr>axes := [stick\<lparr>minimum := 255\<rparr>]\<rparr>" "\<lambda>d e. Some 255"
      "stick\<lparr>minimum := 255\<rparr>" 0]
  by (simp add: pad_def stick_def axis_body_def Let_def elementValue_def word_sless_alt)

section \<open>Failed reads\<close>

lemma elementValue_fails: "read_fails io g e \<Longrightarrow> elementValue io g e = 0"
  by (auto simp: read_fails_def elementValue_def)

lemma hat_body_0: "hat_body 0 = hatUp"
  by (simp add: hat_body_def hatStates_def word_sless_alt word_sle_eq)

text \<open>
  Claim C3 says that every failed read of an element, the absent device included, is
  resolved to the default of the element's kind: 0 for an axis raw value, false for a
  button, Centered for a hat. For a hat it is not: \<^verbatim>\<open>elementValue\<close> answers a failed
  read with the raw value 0, and the hat table decodes 0 as Up. On the example gamepad
  with the device absent, \<^verbatim>\<open>hatState(0)\<close> after \<^verbatim>\<open>update\<close> is Up.
\<close>

theorem update_unreadable_hat_is_up:
  "\<exists>g'. update (\<lambda>d e. None) (pad\<lparr>device := 0\<rparr>) = Inr g' \<and>
     hatState g' 0 = Inr hatUp \<and> hatState g' 0 \<noteq> Inr hatCentered"
  by (simp add: update_Inr pad_def hatState_def filled_def slice_load_def elementValue_def
      hat_body_0 word_sless_alt word_sle_eq)

text \<open>
  Claim C3 as amended: \<^verbatim>\<open>update\<close> always returns, without a panic or an error, and
  every element whose read fails (the device is absent or the platform's call does not
  succeed) is sampled as the raw value 0: an axis gets the value normalised from the
  raw value 0, a button is not pressed, and a hat is decoded from 0, which is Up.
\<close>

theorem update_read_failure_defaults:
  "\<exists>g'. update io g = Inr g' \<and>
     (\<forall>k<length (axes g). read_fails io g (axes g ! k) \<longrightarrow>
        slice_load (axisValues g') k = Inr (snd (axis_body (axes g ! k) 0))) \<and>
     (\<forall>k<length (buttons g). read_fails io g (buttons g ! k) \<longrightarrow>
        slice_load (buttonValues g') k = Inr False) \<and>
     (\<forall>k<length (hats g). read_fails io g (hats g ! k) \<longrightarrow>
        slice_load (hatValues g') k = Inr hatUp)"
  by (simp add: update_Inr slice_load_filled elementValue_fails hat_body_0)

text \<open>
  Witness for C3 as amended: every read of the example gamepad fails; its axis of
  range 0 to 255 gets -1, its button false and its hat Up.
\<close>

theorem update_read_failure_defaults_witness:
  "\<exists>g'. update (\<lambda>d e. None) pad = Inr g' \<and>
     slice_load (axisValues g') 0 = Inr (- 1) \<and>
     slice_load (buttonValues g') 0 = Inr False \<and>
     slice_load (hatValues g') 0 = Inr hatUp"
  using update_read_failure_defaults [of "\<lambda>d e. None" pad]
  by (auto simp: pad_def stick_def read_fails_def axis_body_def Let_def word_sless_alt)

section \<open>The hats\<close>

lemma hat_body_table:
  "hat_body raw =
     (if 0 \<le> sint raw \<and> sint raw \<le> 7
      then [hatUp, hatRightUp, hatRight, hatRightDown, hatDown, hatLeftDown, hatLeft, hatLeftUp]
             ! nat (sint raw)
      else hatCentered)"
  by (auto simp: hat_body_def hatStates_def word_sless_alt word_sle_eq)

text \<open>
  Claim C4: for every hat element, \<^verbatim>\<open>update\<close> decodes a raw value from 0 to 7 as the
  entry at that index of the cycle Up, Right-Up, Right, Right-Down, Down, Left-Down,
  Left, Left-Up, and every raw value outside 0 to 7 as Centered.
\<close>

theorem update_hat_decoding:
  assumes "k < length (hats g)" and "elementValue io g (hats g ! k) = raw"
  shows "\<exists>g'. update io g = Inr g' \<and>
           slice_load (hatValues g') k =
             Inr (if 0 \<le> sint raw \<and> sint raw \<le> 7
                  then [hatUp, hatRightUp, hatRight, hatRightDown,
                        hatDown, hatLeftDown, hatLeft, hatLeftUp] ! nat (sint raw)
                  else hatCentered)"
  using assms by (simp add: update_Inr slice_load_filled hat_body_table)

text \<open>
  Witness for C4: the example gamepad's hat reading 0, 3 and 7 is Up, Right-Down and
  Left-Up; reading -1, 8 and 255 it is Centered.
\<close>

theorem update_hat_decoding_witness:
  "(\<exists>g'. update (\<lambda>d e. Some 0) pad = Inr g' \<and> slice_load (hatValues g') 0 = Inr hatUp) \<and>
   (\<exists>g'. update (\<lambda>d e. Some 3) pad = Inr g' \<and> slice_load (hatValues g') 0 = Inr hatRightDown) \<and>
   (\<exists>g'. update (\<lambda>d e. Some 7) pad = Inr g' \<and> slice_load (hatValues g') 0 = Inr hatLeftUp) \<and>
   (\<exists>g'. update (\<lambda>d e. Some (- 1)) pad = Inr g' \<and> slice_load (hatValues g') 0 = Inr hatCentered) \<and>
   (\<exists>g'. update (\<lambda>d e. Some 8) pad = Inr g' \<and> slice_load (hatValues g') 0 = Inr hatCentered) \<and>
   (\<exists>g'. update (\<lambda>d e. Some 255) pad = Inr g' \<and> slice_load (hatValues g') 0 = Inr hatCentered)"
  using update_hat_decoding [of 0 pad "\<lambda>d e. Some 0" 0]
    update_hat_decoding [of 0 pad "\<lambda>d e. Some 3" 3]
    update_hat_decoding [of 0 pad "\<lambda>d e. Some 7" 7]
    update_hat_decoding [of 0 pad "\<lambda>d e. Some (- 1)" "- 1"]
    update_hat_decoding [of 0 pad "\<lambda>d e. Some 8" 8]
    update_hat_decoding [of 0 pad "\<lambda>d e. Some 255" 255]
  by (simp add: pad_def elementValue_def)

section \<open>The accessors out of range\<close>

text \<open>
  Claim C9: for every gamepad state and every index \<open>i\<close> outside [0, count) of the
  bucket, \<^verbatim>\<open>axisValue(i)\<close> is 0.0, \<^verbatim>\<open>isButtonPressed(i)\<close> is false and \<^verbatim>\<open>hatState(i)\<close> is
  Centered; and at every index \<open>j\<close> each accessor returns a value and does not panic.
  The accessors assign nothing: they are functions of the state to a result.
\<close>

theorem accessors_out_of_range:
  "(i <s 0 \<or> axisNum g \<le>s i \<longrightarrow> axisValue g i = Inr 0) \<and>
   (i <s 0 \<or> buttonNum g \<le>s i \<longrightarrow> isButtonPressed g i = Inr False) \<and>
   (i <s 0 \<or> hatNum g \<le>s i \<longrightarrow> hatState g i = Inr hatCentered) \<and>
   (\<exists>v. axisValue g j = Inr v) \<and> (\<exists>v. isButtonPressed g j = Inr v) \<and>
   (\<exists>v. hatState g j = Inr v)"
proof -
  have "\<exists>v. axisValue g j = Inr v"
    using guard_in_range [of j "slice_len (axisValues g)"]
    by (auto simp: axisValue_def slice_load_def)
  moreover have "\<exists>v. isButtonPressed g j = Inr v"
    using guard_in_range [of j "slice_len (buttonValues g)"]
    by (auto simp: isButtonPressed_def slice_load_def)
  moreover have "\<exists>v. hatState g j = Inr v"
    using guard_in_range [of j "slice_len (hatValues g)"]
    by (auto simp: hatState_def slice_load_def)
  ultimately show ?thesis
    by (simp add: axisValue_def isButtonPressed_def hatState_def
        axisNum_def buttonNum_def hatNum_def)
qed

text \<open>
  Witness for C9: on the example gamepad before its first sample every index is out of
  range; after a sample, with one element in each bucket, the indices 1, 99 and -1 are.
\<close>

theorem accessors_out_of_range_witness:
  "axisValue pad (- 1) = Inr 0 \<and> isButtonPressed pad 99 = Inr False \<and>
   hatState pad (- 1) = Inr hatCentered \<and>
   (\<exists>g'. update (\<lambda>d e. Some 1) pad = Inr g' \<and> axisValue g' 1 = Inr 0 \<and>
      isButtonPressed g' 99 = Inr False \<and> hatState g' (- 1) = Inr hatCentered)"
proof -
  obtain g' where g': "update (\<lambda>d e. Some 1) pad = Inr g'"
    using update_frame by blast
  have n: "axisNum g' = 1" "buttonNum g' = 1" "axisNum pad = 0" "buttonNum pad = 0"
    using g' by (auto simp: update_Inr axisNum_def buttonNum_def filled_def pad_def nil_slice_def)
  show ?thesis
    using accessors_out_of_range [of "- 1" pad] accessors_out_of_range [of 99 pad]
      accessors_out_of_range [of 1 g'] accessors_out_of_range [of 99 g']
      accessors_out_of_range [of "- 1" g'] g' n
    by (simp add: word_sless_alt word_sle_eq)
qed

section \<open>The identifier\<close>

lemma unat_low_byte: "unat (ucast (v :: uint32) :: byte) = unat v mod 256"
  by (simp add: unsigned_ucast_eq take_bit_eq_mod)

lemma unat_high_byte: "unat (ucast (drop_bit 8 (v :: uint32)) :: byte) = unat v div 256 mod 256"
  by (simp add: unsigned_ucast_eq take_bit_eq_mod drop_bit_eq_div unat_div)

lemma fmt_02x_hex_byte: "fmt_02x b = hex_byte (unat b)"
proof -
  have "unat b < 256" using unsigned_less [of b] by simp
  then have "unat b div 16 mod 16 = unat b div 16" by simp
  then show ?thesis by (simp add: fmt_02x_def hex_byte_def)
qed

lemma fmt_02x_le16:
  "fmt_02x (ucast v) @ fmt_02x (ucast (drop_bit 8 (v :: uint32))) = le16_hex v"
  using unat_low_byte [of v] unat_high_byte [of v]
  by (simp only: fmt_02x_hex_byte le16_hex_def)

lemma unat_of_char: "unat (of_char c :: byte) = of_char c"
proof -
  have "(of_char c :: byte) = word_of_nat (of_char c)" by (simp add: of_nat_of_char)
  then have "unat (of_char c :: byte) = (of_char c :: nat) mod 256"
    by (simp only: unat_of_nat) simp
  then show ?thesis using nat_of_char_less_256 [of c] by simp
qed

lemma take_12:
  "12 \<le> length xs \<Longrightarrow>
   take 12 xs = [xs ! 0, xs ! 1, xs ! 2, xs ! 3, xs ! 4, xs ! 5,
                 xs ! 6, xs ! 7, xs ! 8, xs ! 9, xs ! 10, xs ! 11]"
  by (auto simp: eval_nat_numeral Suc_le_length_iff)

lemma sdlID_of_name:
  assumes "vendor = 0 \<or> product = 0"
  shows "sdlID_of nm vendor product version = name_id nm"
proof -
  let ?bs0 = "map of_char nm :: byte list"
  let ?bs = "if length ?bs0 < 12 then ?bs0 @ replicate (12 - length ?bs0) 0 else ?bs0"
  have len: "12 \<le> length ?bs" by simp
  have pad: "?bs = map of_char (nm @ replicate (12 - length nm) (CHR 0x00))"
    by simp
  have "sdlID_of nm vendor product version = ''05000000'' @ concat (map fmt_02x (take 12 ?bs))"
    using assms unfolding take_12 [OF len] by (auto simp: sdlID_of_def Let_def)
  also have "\<dots> = name_id nm"
    unfolding pad name_id_def
    by (simp only: take_map map_map o_def fmt_02x_hex_byte unat_of_char)
  finally show ?thesis .
qed

lemma sdlID_of_numbers:
  assumes "vendor \<noteq> 0" "product \<noteq> 0"
  shows "sdlID_of nm vendor product version =
     ''03000000'' @ le16_hex vendor @ ''0000'' @ le16_hex product @ ''0000''
       @ le16_hex version @ ''0000''"
  using assms
  by (simp add: sdlID_of_def fmt_02x_le16 [symmetric] del: append_assoc)

lemma length_hex_bytes: "length (concat (map (\<lambda>c. hex_byte (f c)) xs)) = 2 * length xs"
  by (induction xs) (simp_all add: hex_byte_def)

lemma length_name_id: "length (name_id nm) = 32"
  unfolding name_id_def by (simp only: length_append length_hex_bytes) simp

lemma hex_digit_in: "n < 16 \<Longrightarrow> hex_digit n \<in> set ''0123456789abcdef''"
  unfolding hex_digit_def by (rule nth_mem) simp

lemma set_hex_byte: "set (hex_byte n) \<subseteq> set ''0123456789abcdef''"
proof -
  have "hex_digit (n div 16 mod 16) \<in> set ''0123456789abcdef''"
    by (rule hex_digit_in) simp
  moreover have "hex_digit (n mod 16) \<in> set ''0123456789abcdef''"
    by (rule hex_digit_in) simp
  ultimately show ?thesis
    unfolding hex_byte_def by (simp only: set_simps insert_subset empty_subsetI simp_thms)
qed

lemma set_le16_hex: "set (le16_hex v) \<subseteq> set ''0123456789abcdef''"
  unfolding le16_hex_def by (simp only: set_append Un_subset_iff set_hex_byte simp_thms)

lemma set_prefix_03: "set ''03000000'' \<subseteq> set ''0123456789abcdef''"
  by simp

lemma set_0000: "set ''0000'' \<subseteq> set ''0123456789abcdef''"
  by simp

lemma length_le16_hex: "length (le16_hex v) = 4"
  by (simp add: le16_hex_def hex_byte_def)

lemma take8_name_id: "take 8 (name_id nm) = ''05000000''"
  by (simp add: name_id_def)

lemma device_identity_elements:
  "device_identity (props\<lparr>MatchingElements := ns\<rparr>) = device_identity props"
  by (simp add: device_identity_def)

lemma device_identity_numbers:
  "VendorIDKey props = Some vendor \<Longrightarrow> ProductIDKey props = Some product \<Longrightarrow>
   VersionNumberKey props = Some version \<Longrightarrow>
   snd (device_identity props)
     = sdlID_of (case ProductKey props of Some s \<Rightarrow> s | None \<Rightarrow> ''Unknown'') vendor product version"
  by (simp add: device_identity_def Let_def)


lemma device_identity_name:
  "VendorIDKey props = None \<or> VendorIDKey props = Some 0
     \<or> ProductIDKey props = None \<or> ProductIDKey props = Some 0 \<Longrightarrow>
   snd (device_identity props)
     = name_id (case ProductKey props of Some s \<Rightarrow> s | None \<Rightarrow> ''Unknown'')"
  by (auto simp: device_identity_def Let_def sdlID_of_name)

lemma sdlID_example: "sdlID_of nm 0x045E 0x028E 0x0114 = ''030000005e0400008e02000014010000''"
  by (simp add: sdlID_of_def fmt_02x_def hex_digit_def)

text \<open>
  Claim C5: when the vendor ID and the product ID are both non-zero, the identifier is
  the prefix "03000000" followed by the vendor, the product and the version, each as a
  little-endian 16-bit value in hexadecimal and each followed by "0000": 32 hexadecimal
  characters. It is the same for every name, and the identifier that the callback
  computes for a device with these three numbers does not depend on the device's
  elements. Vendor 0x045E, product 0x028E and version 0x0114 give
  "030000005e0400008e02000014010000".
\<close>

theorem sdlID_vendor_product:
  assumes "vendor \<noteq> 0" and "product \<noteq> 0"
  shows "sdlID_of nm vendor product version =
           ''03000000'' @ le16_hex vendor @ ''0000'' @ le16_hex product @ ''0000''
             @ le16_hex version @ ''0000''
    \<and> length (sdlID_of nm vendor product version) = 32
    \<and> set (sdlID_of nm vendor product version) \<subseteq> set ''0123456789abcdef''
    \<and> sdlID_of nm' vendor product version = sdlID_of nm vendor product version
    \<and> (VendorIDKey props = Some vendor \<and> ProductIDKey props = Some product
         \<and> VersionNumberKey props = Some version \<longrightarrow>
       snd (device_identity props) = sdlID_of nm vendor product version
       \<and> snd (device_identity (props\<lparr>MatchingElements := ns\<rparr>)) = snd (device_identity props))
    \<and> sdlID_of nm 0x045E 0x028E 0x0114 = ''030000005e0400008e02000014010000''"
proof -
  note eq = sdlID_of_numbers [OF assms]
  have len: "length (sdlID_of nm vendor product version) = 32"
    unfolding eq by (simp add: length_le16_hex)
  have hex: "set (sdlID_of nm vendor product version) \<subseteq> set ''0123456789abcdef''"
    unfolding eq
    by (simp only: set_append Un_subset_iff set_le16_hex set_prefix_03 set_0000 simp_thms)
  have indep: "sdlID_of nm' vendor product version = sdlID_of nm vendor product version"
    by (simp only: eq)
  have dev: "VendorIDKey props = Some vendor \<and> ProductIDKey props = Some product
         \<and> VersionNumberKey props = Some version \<longrightarrow>
       snd (device_identity props) = sdlID_of nm vendor product version
       \<and> snd (device_identity (props\<lparr>MatchingElements := ns\<rparr>)) = snd (device_identity props)"
    by (simp only: device_identity_elements) (auto simp: device_identity_numbers eq)
  from eq len hex indep dev sdlID_example show ?thesis by blast
qed

text \<open>
  Witness for C5: the device named Controller with vendor 0x045E, product 0x028E and
  version 0x0114.
\<close>

theorem sdlID_vendor_product_witness:
  "sdlID_of ''Controller'' 0x045E 0x028E 0x0114 = ''030000005e0400008e02000014010000'' \<and>
   le16_hex 0x045E = ''5e04'' \<and> le16_hex 0x028E = ''8e02'' \<and> le16_hex 0x0114 = ''1401'' \<and>
   snd (device_identity \<lparr>ProductKey = Some ''Controller'', VendorIDKey = Some 0x045E,
     ProductIDKey = Some 0x028E, VersionNumberKey = Some 0x0114, MatchingElements = []\<rparr>)
     = ''030000005e0400008e02000014010000''"
proof -
  let ?props = "\<lparr>ProductKey = Some ''Controller'', VendorIDKey = Some 0x045E,
     ProductIDKey = Some 0x028E, VersionNumberKey = Some 0x0114, MatchingElements = []\<rparr>"
  have ne: "(0x045E :: uint32) \<noteq> 0" "(0x028E :: uint32) \<noteq> 0" by simp_all
  note th = sdlID_vendor_product [OF ne, of "''Controller''" "0x0114" "''Controller''" ?props "[]"]
  have "snd (device_identity ?props) = sdlID_of ''Controller'' 0x045E 0x028E 0x0114"
    using th by simp
  moreover have "le16_hex 0x045E = ''5e04''" "le16_hex 0x028E = ''8e02''" "le16_hex 0x0114 = ''1401''"
    by (simp_all add: le16_hex_def hex_byte_def hex_digit_def)
  ultimately show ?thesis using th by simp
qed


text \<open>
  Claim C6: when the vendor ID or the product ID is unavailable (the property is
  missing or zero), the identifier is the marker "05000000" followed by the first 12
  bytes of the display name in hexadecimal, the name padded with zero bytes when it is
  shorter and cut when it is longer: 32 characters that depend on the name alone.
\<close>

theorem sdlID_name_fallback:
  assumes "vendor = 0 \<or> product = 0"
  shows "sdlID_of nm vendor product version = name_id nm
    \<and> length (sdlID_of nm vendor product version) = 32
    \<and> take 8 (sdlID_of nm vendor product version) = ''05000000''
    \<and> ((VendorIDKey props = None \<or> VendorIDKey props = Some 0
          \<or> ProductIDKey props = None \<or> ProductIDKey props = Some 0) \<longrightarrow>
        snd (device_identity props)
          = name_id (case ProductKey props of Some s \<Rightarrow> s | None \<Rightarrow> ''Unknown''))"
  using assms
  by (simp add: sdlID_of_name length_name_id take8_name_id device_identity_name)

lemma sdlID_Pad: "sdlID_of ''Pad'' v 0 w = ''05000000506164000000000000000000''"
  "sdlID_of ''Pad'' 0 p w = ''05000000506164000000000000000000''"
  by (simp_all add: sdlID_of_def fmt_02x_def hex_digit_def)

lemma sdlID_Wireless:
  "sdlID_of ''Wireless Controller'' 0 0 0 = ''05000000576972656c65737320436f6e''"
  "sdlID_of ''Wireless Console'' 0 0 0 = ''05000000576972656c65737320436f6e''"
  by (simp_all add: sdlID_of_def fmt_02x_def hex_digit_def)

lemma sdlID_Unknown: "sdlID_of ''Unknown'' 0 0 0 = ''05000000556e6b6e6f776e0000000000''"
  by (simp add: sdlID_of_def fmt_02x_def hex_digit_def)

text \<open>
  Witness for C6: the short name Pad is padded, with any version and product; two long
  names that agree on their first 12 bytes get the same identifier; and a device with
  no property at all is named Unknown.
\<close>

theorem sdlID_name_fallback_witness:
  "name_id ''Pad'' = ''05000000506164000000000000000000'' \<and>
   sdlID_of ''Pad'' 0 7 9 = name_id ''Pad'' \<and>
   name_id ''Wireless Controller'' = ''05000000576972656c65737320436f6e'' \<and>
   name_id ''Wireless Console'' = ''05000000576972656c65737320436f6e'' \<and>
   snd (device_identity \<lparr>ProductKey = None, VendorIDKey = None,
     ProductIDKey = None, VersionNumberKey = None, MatchingElements = []\<rparr>)
     = ''05000000556e6b6e6f776e0000000000''"
proof -
  let ?props = "\<lparr>ProductKey = None, VendorIDKey = None,
     ProductIDKey = None, VersionNumberKey = None, MatchingElements = []\<rparr>"
  have "name_id ''Pad'' = ''05000000506164000000000000000000''"
    using sdlID_name_fallback [of 0 0 "''Pad''" 0] sdlID_Pad(1) [of 0 0] by simp
  moreover have "sdlID_of ''Pad'' 0 7 9 = name_id ''Pad''"
    using sdlID_name_fallback [of 0 7 "''Pad''" 9] by simp
  moreover have "name_id ''Wireless Controller'' = ''05000000576972656c65737320436f6e''"
    using sdlID_name_fallback [of 0 0 "''Wireless Controller''" 0] sdlID_Wireless(1) by simp
  moreover have "name_id ''Wireless Console'' = ''05000000576972656c65737320436f6e''"
    using sdlID_name_fallback [of 0 0 "''Wireless Console''" 0] sdlID_Wireless(2) by simp
  moreover have "snd (device_identity ?props) = ''05000000556e6b6e6f776e0000000000''"
    using sdlID_name_fallback [of 0 0 "''Unknown''" 0 ?props] sdlID_Unknown by simp
  ultimately show ?thesis by blast
qed

text \<open>
  Claim C10: if exactly one of the vendor ID and the product ID is zero, the identifier
  is the name-derived one, with the prefix "05000000"; the layout with the prefix
  "03000000" is produced exactly when both IDs are non-zero.
\<close>

theorem sdlID_one_zero_uses_name:
  assumes "(vendor = 0 \<and> product \<noteq> 0) \<or> (vendor \<noteq> 0 \<and> product = 0)"
  shows "sdlID_of nm vendor product version = name_id nm
    \<and> take 8 (sdlID_of nm vendor product version) = ''05000000''
    \<and> (VendorIDKey props = Some vendor \<and> ProductIDKey props = Some product \<longrightarrow>
        snd (device_identity props)
          = name_id (case ProductKey props of Some s \<Rightarrow> s | None \<Rightarrow> ''Unknown''))
    \<and> ((take 8 (sdlID_of nm v p version) = ''03000000'') = (v \<noteq> 0 \<and> p \<noteq> 0))"
proof -
  have one: "vendor = 0 \<or> product = 0" using assms by blast
  have "(take 8 (sdlID_of nm v p version) = ''03000000'') = (v \<noteq> 0 \<and> p \<noteq> 0)"
  proof (cases "v \<noteq> 0 \<and> p \<noteq> 0")
    case True
    then show ?thesis by (simp add: sdlID_of_numbers)
  next
    case False
    then have "sdlID_of nm v p version = name_id nm" by (intro sdlID_of_name) simp
    then show ?thesis using False by (simp add: take8_name_id)
  qed
  moreover have "VendorIDKey props = Some vendor \<and> ProductIDKey props = Some product \<longrightarrow>
        snd (device_identity props)
          = name_id (case ProductKey props of Some s \<Rightarrow> s | None \<Rightarrow> ''Unknown'')"
    using one by (auto intro: device_identity_name)
  ultimately show ?thesis
    using one by (simp add: sdlID_of_name take8_name_id)
qed

text \<open>
  Witness for C10: vendor 0x045E with product 0, and vendor 0 with product 0x028E, both
  for a device named Pad.
\<close>

theorem sdlID_one_zero_uses_name_witness:
  "sdlID_of ''Pad'' 0x045E 0 0x0114 = name_id ''Pad'' \<and>
   sdlID_of ''Pad'' 0 0x028E 0x0114 = name_id ''Pad'' \<and>
   name_id ''Pad'' = ''05000000506164000000000000000000'' \<and>
   snd (device_identity \<lparr>ProductKey = Some ''Pad'', VendorIDKey = Some 0x045E,
     ProductIDKey = Some 0, VersionNumberKey = Some 0x0114, MatchingElements = []\<rparr>)
     = ''05000000506164000000000000000000''"
proof -
  let ?props = "\<lparr>ProductKey = Some ''Pad'', VendorIDKey = Some 0x045E,
     ProductIDKey = Some 0, VersionNumberKey = Some 0x0114, MatchingElements = []\<rparr>"
  have h1: "((0x045E :: uint32) = 0 \<and> (0 :: uint32) \<noteq> 0) \<or> ((0x045E :: uint32) \<noteq> 0 \<and> (0 :: uint32) = 0)"
    by simp
  have h2: "((0 :: uint32) = 0 \<and> (0x028E :: uint32) \<noteq> 0) \<or> ((0 :: uint32) \<noteq> 0 \<and> (0x028E :: uint32) = 0)"
    by simp
  note t1 = sdlID_one_zero_uses_name [OF h1, of "''Pad''" "0x0114" ?props]
  note t2 = sdlID_one_zero_uses_name [OF h2, of "''Pad''" "0x0114"]
  have a: "sdlID_of ''Pad'' 0x045E 0 0x0114 = name_id ''Pad''" using t1 by blast
  have b: "sdlID_of ''Pad'' 0 0x028E 0x0114 = name_id ''Pad''" using t2 by blast
  have c: "name_id ''Pad'' = ''05000000506164000000000000000000''"
    using a sdlID_Pad(1) [of "0x045E" "0x0114"] by simp
  have "snd (device_identity ?props) = name_id ''Pad''" using t1 by simp
  with a b c show ?thesis by simp
qed

section \<open>The element classifier: discovery order and sorting\<close>

lemma sint_of_nat_small: "n < 2 ^ 63 \<Longrightarrow> sint (word_of_nat n :: go_int) = int n"
  by (simp add: signed_of_nat signed_take_bit_int_eq_self)

lemma sint_inject: "(sint (a :: go_int) = sint b) = (a = b)"
  by (rule signed_word_eqI [THEN iffI]) auto

lemma elements_Less_key: "elements_Less a b = (elem_key a < elem_key b)"
proof -
  have "(usage a = usage b) = (sint (usage a) = sint (usage b))"
    and "(index a = index b) = (sint (index a) = sint (index b))"
    by (simp_all add: sint_inject)
  then show ?thesis
    unfolding elements_Less_def elem_key_def less_prod_def word_sless_alt by auto
qed

lemma stable_insert_insort:
  "stable_insert elements_Less x ys = insort_key elem_key x ys"
  by (induction ys) (auto simp: elements_Less_key)

lemma sort_Stable_sort_key: "sort_Stable elements_Less es = sort_key elem_key es"
  by (induction es) (simp_all add: sort_Stable_def sort_key_def stable_insert_insort)

lemma indexed_append: "indexed es \<Longrightarrow> indexed (es @ [new_element n (length es)])"
  by (simp add: indexed_def new_element_def)

lemma classify_cases:
  "classify n g = g \<or> classify n g = append_axis n g \<or> classify n g = append_hat n g
    \<or> classify n g = append_button n g"
  by (simp add: classify_def del: set_simps)

lemma classify_bucket:
  assumes "bucket \<in> {axes, buttons, hats}"
  shows "bucket (classify n g) = bucket g
    \<or> bucket (classify n g) = bucket g @ [new_element n (length (bucket g))]"
  using assms classify_cases [of n g]
  by (auto simp: append_axis_def append_hat_def append_button_def)

lemma classify_all_indexed:
  assumes "bucket \<in> {axes, buttons, hats}" "indexed (bucket g)"
  shows "indexed (bucket (classify_all ns g))"
  using assms(2)
proof (induction ns arbitrary: g)
  case Nil
  then show ?case by (simp add: classify_all_def)
next
  case (Cons n ns)
  have "indexed (bucket (classify n g))"
    using classify_bucket [OF assms(1), of n g] Cons.prems by (auto intro: indexed_append)
  then have "indexed (bucket (classify_all ns (classify n g)))" by (rule Cons.IH)
  then show ?case by (simp add: classify_all_def)
qed

lemma classify_all_length:
  assumes "bucket \<in> {axes, buttons, hats}"
  shows "length (bucket (classify_all ns g)) \<le> length (bucket g) + length ns"
proof (induction ns arbitrary: g)
  case Nil
  then show ?case by (simp add: classify_all_def)
next
  case (Cons n ns)
  have "length (bucket (classify n g)) \<le> Suc (length (bucket g))"
    using classify_bucket [OF assms, of n g] by auto
  moreover have "length (bucket (classify_all ns (classify n g)))
      \<le> length (bucket (classify n g)) + length ns" by (rule Cons.IH)
  ultimately show ?case by (simp add: classify_all_def)
qed

lemma sort_buckets_bucket:
  assumes "bucket \<in> {axes, buttons, hats}"
  shows "bucket (sort_buckets g) = sort_Stable elements_Less (bucket g)"
  using assms by (auto simp: sort_buckets_def)

lemma indexed_positions:
  assumes "indexed es" "length es < 2 ^ 63"
  shows "map (\<lambda>e. sint (index e)) es = map int [0..<length es]"
proof -
  have "map (\<lambda>e. sint (index e)) es = map sint (map index es)" by (simp add: o_def)
  also have "\<dots> = map (\<lambda>k. sint (word_of_nat k :: go_int)) [0..<length es]"
    using assms(1) by (simp add: indexed_def o_def)
  also have "\<dots> = map int [0..<length es]"
    using assms(2) by (intro map_cong refl sint_of_nat_small) simp
  finally show ?thesis .
qed

lemma positions_sorted:
  assumes "map k raw = map int [0..<length raw]"
  shows "sorted_wrt (\<lambda>a b. k a < k b) raw" and "distinct (map k raw)"
proof -
  have "sorted_wrt (<) (map int [0..<length raw])"
    by (simp add: sorted_wrt_map)
  then show "sorted_wrt (\<lambda>a b. k a < k b) raw"
    by (simp add: assms [symmetric] sorted_wrt_map)
  show "distinct (map k raw)"
    by (simp add: assms distinct_map)
qed

lemma filter_sorted_by_position:
  fixes key :: "'a \<Rightarrow> 'b :: linorder" and k :: "'a \<Rightarrow> int"
  assumes srt: "sorted (map key final)" and perm: "mset final = mset raw"
    and pos: "map k raw = map int [0..<length raw]"
    and agree: "\<And>a b. P a \<Longrightarrow> P b \<Longrightarrow> key a \<le> key b \<Longrightarrow> k a \<le> k b"
  shows "filter P final = filter P raw"
proof -
  have set_eq: "set final = set raw" using perm by (rule mset_eq_setD)
  have d_raw: "distinct (map k raw)" using pos by (rule positions_sorted)
  have "mset (map k final) = mset (map k raw)" using perm by simp
  then have "distinct (map k final) = distinct (map k raw)"
    by (rule mset_eq_imp_distinct_iff)
  then have d_fin: "distinct (map k final)"
    using d_raw by blast
  have inj: "inj_on k (set raw)" using d_raw by (simp add: distinct_map)
  have s_raw: "sorted (map k (filter P raw))"
  proof -
    have "sorted_wrt (\<lambda>a b. k a < k b) (filter P raw)"
      using positions_sorted(1) [OF pos] by (rule sorted_wrt_filter)
    then have "sorted_wrt (\<lambda>a b. k a \<le> k b) (filter P raw)"
      by (rule sorted_wrt_mono_rel [rotated]) simp
    then show ?thesis by (simp add: sorted_map)
  qed
  have s_fin: "sorted (map k (filter P final))"
  proof -
    have "sorted_wrt (\<lambda>a b. key a \<le> key b) final"
      using srt by (simp add: sorted_map)
    then have "sorted_wrt (\<lambda>a b. key a \<le> key b) (filter P final)"
      by (rule sorted_wrt_filter)
    then have "sorted_wrt (\<lambda>a b. k a \<le> k b) (filter P final)"
      by (rule sorted_wrt_mono_rel [rotated]) (simp add: agree)
    then show ?thesis by (simp add: sorted_map)
  qed
  have "map k (filter P final) = map k (filter P raw)"
  proof (rule sorted_distinct_set_unique)
    show "sorted (map k (filter P final))" by (rule s_fin)
    show "sorted (map k (filter P raw))" by (rule s_raw)
    show "distinct (map k (filter P final))" using d_fin by (rule distinct_map_filter)
    show "distinct (map k (filter P raw))" using d_raw by (rule distinct_map_filter)
    show "set (map k (filter P final)) = set (map k (filter P raw))"
      using set_eq by simp
  qed
  moreover have "inj_on k (set (filter P final) \<union> set (filter P raw))"
    using inj set_eq by (auto intro: inj_on_subset)
  ultimately show ?thesis by (simp add: inj_on_map_eq_map)
qed

lemma sort_Stable_bucket:
  assumes "indexed raw" and "length raw < 2 ^ 63"
  defines "final \<equiv> sort_Stable elements_Less raw"
  shows "mset final = mset raw"
    and "sorted_wrt elements_Less final"
    and "filter (\<lambda>e. usage e = u) final = filter (\<lambda>e. usage e = u) raw"
proof -
  note pos = indexed_positions [OF assms(1,2)]
  have fin: "final = sort_key elem_key raw"
    by (simp add: final_def sort_Stable_sort_key)
  show perm: "mset final = mset raw" by (simp add: fin)
  have srt: "sorted (map elem_key final)" by (simp add: fin)
  have "distinct (map (\<lambda>e. sint (index e)) raw)" using pos by (rule positions_sorted)
  then have "distinct (map (snd \<circ> elem_key) raw)" by (simp add: elem_key_def o_def)
  then have "distinct (map elem_key raw)"
    by (metis distinct_map map_map)
  then have "distinct (map elem_key final)" by (simp add: fin distinct_map)
  with srt have "sorted_wrt (<) (map elem_key final)" by (simp add: strict_sorted_iff)
  then show "sorted_wrt elements_Less final"
    by (simp add: sorted_wrt_map elements_Less_key [abs_def])
  show "filter (\<lambda>e. usage e = u) final = filter (\<lambda>e. usage e = u) raw"
    using srt perm pos
  proof (rule filter_sorted_by_position)
    fix a b assume "usage a = u" "usage b = u" "elem_key a \<le> elem_key b"
    then show "sint (index a) \<le> sint (index b)"
      by (simp add: elem_key_def less_eq_prod_def)
  qed
qed

text \<open>
  Claim C7: in the classification each round leaves a bucket as it is or appends one
  element to it whose index is the bucket's length at that time, so after the loop the
  indices of a bucket are the positions 0, 1, ... in discovery order. Each bucket is
  then sorted by \<^verbatim>\<open>sort.Stable\<close> with \<^verbatim>\<open>Less\<close>: the result is a permutation of the
  bucket, ascending by (usage, index), and for every usage code the elements with that
  usage stand in the sorted bucket in the order in which they were discovered. The
  buckets start empty, as in a new registry entry, and the platform's array has fewer
  than 2^63 members, as every array of a 64-bit \<^verbatim>\<open>CFIndex\<close> count has. Classification is
  a function of the element list, so classifying the same list twice gives the same
  buckets.
\<close>

theorem classify_then_sort:
  assumes "length ns < 2 ^ 63"
    and "axes g = []" and "buttons g = []" and "hats g = []"
    and "bucket \<in> {axes, buttons, hats}"
  shows "(bucket (classify n g') = bucket g'
          \<or> bucket (classify n g') = bucket g' @ [new_element n (length (bucket g'))])
    \<and> index (new_element n k) = word_of_nat k
    \<and> (let raw = bucket (classify_all ns g);
            final = bucket (sort_buckets (classify_all ns g))
        in map index raw = map word_of_nat [0..<length raw]
         \<and> final = sort_Stable elements_Less raw
         \<and> mset final = mset raw
         \<and> sorted_wrt elements_Less final
         \<and> filter (\<lambda>e. usage e = u) final = filter (\<lambda>e. usage e = u) raw)"
proof -
  let ?raw = "bucket (classify_all ns g)"
  have "bucket g = []" using assms(2-5) by auto
  then have "indexed (bucket g)" by (simp add: indexed_def)
  then have ix: "indexed ?raw" by (rule classify_all_indexed [OF assms(5)])
  have "length ?raw \<le> length (bucket g) + length ns"
    by (rule classify_all_length [OF assms(5)])
  then have len: "length ?raw < 2 ^ 63"
    using assms(1) \<open>bucket g = []\<close> by simp
  note srt = sort_Stable_bucket [OF ix len]
  show ?thesis
    using classify_bucket [OF assms(5), of n g'] ix srt
    by (simp add: Let_def sort_buckets_bucket [OF assms(5)] new_element_def indexed_def)
qed

lemma example_raw:
  "axes (classify_all example_elements blank) = [el 21 0x31 0, el 22 0x36 1, el 23 0x30 2, el 24 0x36 3]"
  "buttons (classify_all example_elements blank) = [el 26 2 0, el 27 1 1]"
  "hats (classify_all example_elements blank) = [el 25 0x39 0]"
  by (simp_all add: classify_all_def example_elements_def blank_def input_def classify_def
      append_axis_def append_hat_def append_button_def new_element_def el_def
      kIOHIDElementTypeInput_Misc_def kIOHIDElementTypeInput_Button_def
      kIOHIDElementTypeInput_Axis_def kHIDPage_GenericDesktop_def kHIDPage_Button_def
      kHIDPage_Simulation_def kHIDPage_Consumer_def
      kHIDUsage_GD_X_def kHIDUsage_GD_Y_def kHIDUsage_GD_Z_def kHIDUsage_GD_Rx_def
      kHIDUsage_GD_Ry_def kHIDUsage_GD_Rz_def kHIDUsage_GD_Slider_def kHIDUsage_GD_Dial_def
      kHIDUsage_GD_Wheel_def kHIDUsage_GD_Hatswitch_def)

lemma example_sorted:
  "sort_Stable elements_Less [el 21 0x31 0, el 22 0x36 1, el 23 0x30 2, el 24 0x36 3]
     = [el 23 0x30 2, el 21 0x31 0, el 22 0x36 1, el 24 0x36 3]"
  "sort_Stable elements_Less [el 26 2 0, el 27 1 1] = [el 27 1 1, el 26 2 0]"
  by (simp_all add: sort_Stable_def elements_Less_def el_def word_sless_alt)

text \<open>
  Witness for C7: the example device. Its axes are discovered as Y, slider, X, slider
  and sorted as X, Y, slider, slider, the two sliders in their discovery order; its
  buttons 2, 1 are sorted as 1, 2.
\<close>

theorem classify_then_sort_witness:
  "axes (classify_all example_elements blank)
     = [el 21 0x31 0, el 22 0x36 1, el 23 0x30 2, el 24 0x36 3] \<and>
   axes (sort_buckets (classify_all example_elements blank))
     = [el 23 0x30 2, el 21 0x31 0, el 22 0x36 1, el 24 0x36 3] \<and>
   filter (\<lambda>e. usage e = 0x36) (axes (sort_buckets (classify_all example_elements blank)))
     = [el 22 0x36 1, el 24 0x36 3] \<and>
   buttons (sort_buckets (classify_all example_elements blank)) = [el 27 1 1, el 26 2 0] \<and>
   hats (sort_buckets (classify_all example_elements blank)) = [el 25 0x39 0]"
proof -
  have n: "length example_elements < 2 ^ 63" by (simp add: example_elements_def)
  have b: "axes blank = []" "buttons blank = []" "hats blank = []" by (simp_all add: blank_def)
  let ?g = "classify_all example_elements blank"
  have m: "axes \<in> {axes, buttons, hats}" "buttons \<in> {axes, buttons, hats}"
    "hats \<in> {axes, buttons, hats}" by simp_all
  note ax = classify_then_sort [OF n b m(1), where u = "0x36" and n = "hd example_elements"
      and g' = blank and k = 0, unfolded Let_def]
  note bt = classify_then_sort [OF n b m(2), where u = 1 and n = "hd example_elements"
      and g' = blank and k = 0, unfolded Let_def]
  note ht = classify_then_sort [OF n b m(3), where u = "0x39" and n = "hd example_elements"
      and g' = blank and k = 0, unfolded Let_def]
  have "axes (sort_buckets ?g) = sort_Stable elements_Less (axes ?g)"
    using ax by blast
  then have 1: "axes (sort_buckets ?g) = [el 23 0x30 2, el 21 0x31 0, el 22 0x36 1, el 24 0x36 3]"
    by (simp only: example_raw example_sorted)
  have "filter (\<lambda>e. usage e = 0x36) (axes (sort_buckets ?g))
      = filter (\<lambda>e. usage e = 0x36) (axes ?g)"
    using ax by blast
  then have 2: "filter (\<lambda>e. usage e = 0x36) (axes (sort_buckets ?g))
      = [el 22 0x36 1, el 24 0x36 3]"
    by (simp add: example_raw el_def)
  have "buttons (sort_buckets ?g) = sort_Stable elements_Less (buttons ?g)"
    using bt by blast
  then have 3: "buttons (sort_buckets ?g) = [el 27 1 1, el 26 2 0]"
    by (simp only: example_raw example_sorted)
  have "hats (sort_buckets ?g) = sort_Stable elements_Less (hats ?g)"
    using ht by blast
  then have 4: "hats (sort_buckets ?g) = [el 25 0x39 0]"
    by (simp add: example_raw sort_Stable_def)
  from 1 2 3 4 show ?thesis by (simp only: example_raw simp_thms)
qed

section \<open>Attach and detach\<close>

lemma gamepads_find_None:
  "(gamepads_find cond gs = None) = (\<forall>g\<in>set gs. \<not> cond g)"
proof -
  have "(filter (\<lambda>k. cond (gs ! k)) [0..<length gs] = []) = (\<forall>g\<in>set gs. \<not> cond g)"
    by (auto simp: filter_empty_conv all_set_conv_all_nth)
  then show ?thesis
    unfolding gamepads_find_def
    by (cases "filter (\<lambda>k. cond (gs ! k)) [0..<length gs]") simp_all
qed

lemma device_classify: "device (classify n g) = device g"
  using classify_cases [of n g]
  by (auto simp: append_axis_def append_hat_def append_button_def)

lemma device_classify_all: "device (classify_all ns g) = device g"
  unfolding classify_all_def
  by (induction ns arbitrary: g) (simp_all add: device_classify)

lemma device_sort_buckets: "device (sort_buckets g) = device g"
  by (simp add: sort_buckets_def)

lemma device_attached: "device (attached d props) = d"
  by (simp add: attached_def device_sort_buckets device_classify_all)

lemma callback_known:
  "\<exists>g\<in>set gs. device g = d \<Longrightarrow> ebitenGamepadMatchingCallback gs d props = gs"
  by (simp add: ebitenGamepadMatchingCallback_def gamepads_find_None)

lemma callback_new:
  "\<forall>g\<in>set gs. device g \<noteq> d \<Longrightarrow>
   ebitenGamepadMatchingCallback gs d props = gs @ [attached d props]"
  by (simp add: ebitenGamepadMatchingCallback_def gamepads_find_None gamepads_add_def
      attached_def Let_def split: prod.splits)

lemma removal_unknown:
  "\<forall>g\<in>set gs. device g \<noteq> d \<Longrightarrow> ebitenGamepadRemovalCallback gs d = gs"
  by (simp add: ebitenGamepadRemovalCallback_def gamepads_remove_def)

lemma callback_twice:
  "ebitenGamepadMatchingCallback (ebitenGamepadMatchingCallback gs d props) d props'
     = ebitenGamepadMatchingCallback gs d props"
proof (cases "\<exists>g\<in>set gs. device g = d")
  case True
  then show ?thesis by (simp add: callback_known)
next
  case False
  then have new: "ebitenGamepadMatchingCallback gs d props = gs @ [attached d props]"
    by (intro callback_new) simp
  have "\<exists>g\<in>set (gs @ [attached d props]). device g = d"
    by (simp add: device_attached)
  then show ?thesis unfolding new by (rule callback_known)
qed

text \<open>
  Claim C8: an attach notification for a device handle that a registry entry already
  has changes nothing, so a second notification for the same handle is a no-op; two
  notifications for a handle the registry did not know leave exactly one entry with
  that handle, one entry more than before; and a detach notification for a handle that
  no entry has leaves the registry as it is.
\<close>

theorem hotplug_idempotent:
  "((\<exists>g\<in>set gs. device g = d) \<longrightarrow> ebitenGamepadMatchingCallback gs d props = gs)
   \<and> ebitenGamepadMatchingCallback (ebitenGamepadMatchingCallback gs d props) d props'
       = ebitenGamepadMatchingCallback gs d props
   \<and> ((\<forall>g\<in>set gs. device g \<noteq> d) \<longrightarrow>
       length (filter (\<lambda>g. device g = d)
         (ebitenGamepadMatchingCallback (ebitenGamepadMatchingCallback gs d props) d props')) = 1
       \<and> length (ebitenGamepadMatchingCallback (ebitenGamepadMatchingCallback gs d props) d props')
           = Suc (length gs))
   \<and> ((\<forall>g\<in>set gs. device g \<noteq> d) \<longrightarrow> ebitenGamepadRemovalCallback gs d = gs)"
proof -
  have new: "length (filter (\<lambda>g. device g = d)
         (ebitenGamepadMatchingCallback (ebitenGamepadMatchingCallback gs d props) d props')) = 1
       \<and> length (ebitenGamepadMatchingCallback (ebitenGamepadMatchingCallback gs d props) d props')
           = Suc (length gs)"
    if unknown: "\<forall>g\<in>set gs. device g \<noteq> d"
  proof -
    have "filter (\<lambda>g. device g = d) gs = []"
      using unknown by (simp add: filter_empty_conv)
    then have "length (filter (\<lambda>g. device g = d) (gs @ [attached d props])) = 1"
      by (simp add: device_attached)
    then show ?thesis
      unfolding callback_twice unfolding callback_new [OF unknown] by simp
  qed
  show ?thesis
    using new callback_twice [of gs d props props'] callback_known [of gs d props]
      removal_unknown [of gs d]
    by blast
qed

text \<open>
  Witness for C8: the example device attached twice as device 1 to the empty registry
  is one entry; detaching the unknown device 2 changes nothing, and detaching device 1
  empties the registry.
\<close>

theorem hotplug_idempotent_witness:
  "map device (ebitenGamepadMatchingCallback [] 1 example_device) = [1] \<and>
   ebitenGamepadMatchingCallback (ebitenGamepadMatchingCallback [] 1 example_device)
      1 example_device
     = ebitenGamepadMatchingCallback [] 1 example_device \<and>
   length (ebitenGamepadMatchingCallback (ebitenGamepadMatchingCallback [] 1 example_device)
      1 example_device) = 1 \<and>
   ebitenGamepadRemovalCallback (ebitenGamepadMatchingCallback [] 1 example_device) 2
     = ebitenGamepadMatchingCallback [] 1 example_device \<and>
   ebitenGamepadRemovalCallback (ebitenGamepadMatchingCallback [] 1 example_device) 1 = []"
proof -
  let ?gs = "ebitenGamepadMatchingCallback [] 1 example_device"
  have gs: "?gs = [attached 1 example_device]"
    using callback_new [of "[]" 1 example_device] by simp
  have dev: "map device ?gs = [1]"
    unfolding gs by (simp add: device_attached)
  have known: "\<exists>g\<in>set ?gs. device g = 1" and unknown: "\<forall>g\<in>set ?gs. device g \<noteq> 2"
    unfolding gs by (simp_all add: device_attached)
  have none: "\<forall>g\<in>set ([] :: gamepads). device g \<noteq> 1" by simp
  note first = hotplug_idempotent [of "[]" 1 example_device example_device]
  note again = hotplug_idempotent [of ?gs 1 example_device example_device]
  note other = hotplug_idempotent [of ?gs 2 example_device example_device]
  have "ebitenGamepadMatchingCallback ?gs 1 example_device = ?gs"
    using again known by blast
  moreover have "length (ebitenGamepadMatchingCallback ?gs 1 example_device)
      = Suc (length ([] :: gamepads))"
    using first none by blast
  then have "length (ebitenGamepadMatchingCallback ?gs 1 example_device) = 1"
    by simp
  moreover have "ebitenGamepadRemovalCallback ?gs 2 = ?gs"
    using other unknown by blast
  moreover have "ebitenGamepadRemovalCallback ?gs 1 = []"
    unfolding gs
    by (simp add: ebitenGamepadRemovalCallback_def gamepads_remove_def device_attached)
  ultimately show ?thesis using dev by blast
qed

end
